theory Spec2Isabelle
  imports Main
begin

section \<open>Domain configuration of the browser extension (common/domains.ts)\<close>

text \<open>
  The module keeps a fixed list of built-in Lark/Feishu domains and a user-editable list of
  custom domains persisted under one key of \<^verbatim>\<open>chrome.storage.sync\<close>. This theory embeds
  its functions, the host-suffix check of \<^verbatim>\<open>background.ts\<close> and the two handlers of the
  options page that call the mutating operations.

  A JavaScript string is a sequence of UTF-16 code units. The embedding uses \<^typ>\<open>string\<close>,
  so a character stands for one code unit in the range U+0000 to U+00FF; the domain grammar
  accepts ASCII only, and \<^verbatim>\<open>trim\<close> and \<^verbatim>\<open>toLowerCase\<close> are modelled on that range.
\<close>

subsection \<open>String primitives of the host language\<close>

text \<open>
  \<^verbatim>\<open>String.prototype.trim\<close> removes white space and line terminators from both ends.
  Below U+0100 these are TAB, LF, VT, FF, CR, SPACE and NO-BREAK SPACE.
\<close>

definition isWhiteSpace :: "char \<Rightarrow> bool" where
  "isWhiteSpace c = ((of_char c :: nat) \<in> {9, 10, 11, 12, 13, 32, 160})"

definition trim :: "string \<Rightarrow> string" where
  "trim s = rev (dropWhile isWhiteSpace (rev (dropWhile isWhiteSpace s)))"

text \<open>
  \<^verbatim>\<open>String.prototype.toLowerCase\<close>: below U+0100 the letters with a lower-case mapping are
  A-Z and U+00C0 to U+00DE without the multiplication sign U+00D7; each maps to the code
  unit 32 above it.
\<close>

definition toLowerChar :: "char \<Rightarrow> char" where
  "toLowerChar c =
     (let n = (of_char c :: nat)
      in if (65 \<le> n \<and> n \<le> 90) \<or> (192 \<le> n \<and> n \<le> 222 \<and> n \<noteq> 215)
         then char_of (n + 32) else c)"

definition toLowerCase :: "string \<Rightarrow> string" where
  "toLowerCase s = map toLowerChar s"

fun startsWith :: "string \<Rightarrow> string \<Rightarrow> bool" where
  "startsWith s [] = True"
| "startsWith [] (p # ps) = False"
| "startsWith (c # cs) (p # ps) = (c = p \<and> startsWith cs ps)"

text \<open>\<^verbatim>\<open>s.includes(sub)\<close>: \<open>sub\<close> occurs in \<open>s\<close> as a contiguous run.\<close>

fun includes_str :: "string \<Rightarrow> string \<Rightarrow> bool" where
  "includes_str [] sub = (sub = [])"
| "includes_str (c # cs) sub = (startsWith (c # cs) sub \<or> includes_str cs sub)"

definition endsWith :: "string \<Rightarrow> string \<Rightarrow> bool" where
  "endsWith s suffix = startsWith (rev s) (rev suffix)"

subsection \<open>Regular expressions\<close>

text \<open>
  The pattern of \<^verbatim>\<open>validateDomain\<close> uses character classes, grouping, \<^verbatim>\<open>?\<close>, \<^verbatim>\<open>*\<close>,
  \<^verbatim>\<open>{2,}\<close> and the anchors \<^verbatim>\<open>^\<close> and \<^verbatim>\<open>$\<close> around the whole pattern, with no flags.
  For such a pattern \<^verbatim>\<open>test\<close> answers whether the whole string belongs to the language
  of the expression; the matcher below decides that with derivatives.
\<close>

datatype char_item = Single char | Range char char

fun in_item :: "char \<Rightarrow> char_item \<Rightarrow> bool" where
  "in_item c (Single a) = (c = a)"
| "in_item c (Range lo hi) =
     ((of_char lo :: nat) \<le> of_char c \<and> (of_char c :: nat) \<le> of_char hi)"

datatype regex =
    Never
  | Eps
  | Class "char_item list"
  | Seq regex regex
  | Alt regex regex
  | Star regex

fun nullable :: "regex \<Rightarrow> bool" where
  "nullable Never = False"
| "nullable Eps = True"
| "nullable (Class cs) = False"
| "nullable (Seq r s) = (nullable r \<and> nullable s)"
| "nullable (Alt r s) = (nullable r \<or> nullable s)"
| "nullable (Star r) = True"

fun deriv :: "char \<Rightarrow> regex \<Rightarrow> regex" where
  "deriv c Never = Never"
| "deriv c Eps = Never"
| "deriv c (Class cs) = (if list_ex (in_item c) cs then Eps else Never)"
| "deriv c (Seq r s) =
     (if nullable r then Alt (Seq (deriv c r) s) (deriv c s) else Seq (deriv c r) s)"
| "deriv c (Alt r s) = Alt (deriv c r) (deriv c s)"
| "deriv c (Star r) = Seq (deriv c r) (Star r)"

definition regex_test :: "regex \<Rightarrow> string \<Rightarrow> bool" where
  "regex_test r s = nullable (foldl (\<lambda>q c. deriv c q) r s)"

text \<open>
  The language of an expression, as a reference for the matcher: \<open>regex_test_iff\<close> below
  shows that \<open>regex_test\<close> decides it.
\<close>

inductive matches :: "regex \<Rightarrow> string \<Rightarrow> bool" where
  m_Eps: "matches Eps []"
| m_Class: "list_ex (in_item c) cs \<Longrightarrow> matches (Class cs) [c]"
| m_Seq: "matches r u \<Longrightarrow> matches s v \<Longrightarrow> matches (Seq r s) (u @ v)"
| m_AltL: "matches r u \<Longrightarrow> matches (Alt r s) u"
| m_AltR: "matches s u \<Longrightarrow> matches (Alt r s) u"
| m_StarNil: "matches (Star r) []"
| m_StarStep: "matches r u \<Longrightarrow> matches (Star r) v \<Longrightarrow> matches (Star r) (u @ v)"

text \<open>\<^verbatim>\<open>r?\<close> (greedy; greediness does not change which whole strings match).\<close>

definition Opt :: "regex \<Rightarrow> regex" where
  "Opt r = Alt r Eps"

subsection \<open>Domain validator\<close>

text \<open>\<^verbatim>\<open>[a-zA-Z0-9]\<close>, \<^verbatim>\<open>[a-zA-Z0-9-]\<close>, \<^verbatim>\<open>[a-zA-Z]\<close> and \<^verbatim>\<open>\.\<close>.\<close>

definition alnum :: regex where
  "alnum = Class [Range CHR ''a'' CHR ''z'', Range CHR ''A'' CHR ''Z'', Range CHR ''0'' CHR ''9'']"

definition alnum_hyphen :: regex where
  "alnum_hyphen =
     Class [Range CHR ''a'' CHR ''z'', Range CHR ''A'' CHR ''Z'', Range CHR ''0'' CHR ''9'',
            Single CHR ''-'']"

definition alpha :: regex where
  "alpha = Class [Range CHR ''a'' CHR ''z'', Range CHR ''A'' CHR ''Z'']"

definition dot :: regex where
  "dot = Class [Single CHR ''.'']"

text \<open>One label: \<^verbatim>\<open>[a-zA-Z0-9]([a-zA-Z0-9-]*[a-zA-Z0-9])?\<close>.\<close>

definition label :: regex where
  "label = Seq alnum (Opt (Seq (Star alnum_hyphen) alnum))"

text \<open>
  \<^verbatim>\<open>/^[a-zA-Z0-9]([a-zA-Z0-9-]*[a-zA-Z0-9])?(\.[a-zA-Z0-9]([a-zA-Z0-9-]*[a-zA-Z0-9])?)*\.[a-zA-Z]{2,}$/\<close>
\<close>

definition domainRegex :: regex where
  "domainRegex =
     Seq label
       (Seq (Star (Seq dot label))
         (Seq dot (Seq alpha (Seq alpha (Star alpha)))))"

definition validateDomain :: "string \<Rightarrow> bool" where
  "validateDomain domain =
     (let trimmed = trim domain
      in if trimmed = [] \<or> includes_str trimmed ''://'' \<or> includes_str trimmed ''/''
         then False
         else regex_test domainRegex trimmed)"

definition normalizeDomain :: "string \<Rightarrow> string" where
  "normalizeDomain domain = toLowerCase (trim domain)"

subsection \<open>URL pattern generator\<close>

definition DEFAULT_DOMAINS :: "string list" where
  "DEFAULT_DOMAINS =
     [''feishu.cn'', ''feishu.net'', ''larksuite.com'', ''feishu-pre.net'', ''larkoffice.com'',
      ''larkenterprise.com'']"

definition domainToUrlPatterns :: "string \<Rightarrow> string list" where
  "domainToUrlPatterns domain =
     [''https://'' @ domain @ ''/*'', ''https://*.'' @ domain @ ''/*'']"

text \<open>\<^verbatim>\<open>xs.flatMap(f)\<close> for an \<open>f\<close> that returns arrays.\<close>

definition flatMap :: "('a \<Rightarrow> 'b list) \<Rightarrow> 'a list \<Rightarrow> 'b list" where
  "flatMap f xs = concat (map f xs)"

text \<open>
  The parameter has the default value \<^verbatim>\<open>[]\<close>: \<open>None\<close> stands for a call that omits the
  argument.
\<close>

definition getAllUrlPatterns :: "string list option \<Rightarrow> string list" where
  "getAllUrlPatterns arg =
     (let customDomains = (case arg of None \<Rightarrow> [] | Some xs \<Rightarrow> xs);
          defaultPatterns = flatMap domainToUrlPatterns DEFAULT_DOMAINS;
          customPatterns = flatMap domainToUrlPatterns customDomains
      in defaultPatterns @ customPatterns)"

text \<open>
  The specification's wording of the same two functions: the exact-host pattern followed by
  the wildcard-subdomain pattern, and the built-in patterns followed by the custom ones.
\<close>

definition patternsFor_spec :: "string \<Rightarrow> string list" where
  "patternsFor_spec d = [''https://'' @ d @ ''/*'', ''https://*.'' @ d @ ''/*'']"

fun allPatterns_spec :: "string list \<Rightarrow> string list \<Rightarrow> string list" where
  "allPatterns_spec [] [] = []"
| "allPatterns_spec [] (c # cs) = patternsFor_spec c @ allPatterns_spec [] cs"
| "allPatterns_spec (b # bs) cs = patternsFor_spec b @ allPatterns_spec bs cs"

subsection \<open>Host environment and module state\<close>

text \<open>
  The module talks to three host interfaces: \<^verbatim>\<open>chrome.storage.sync.get\<close>,
  \<^verbatim>\<open>chrome.storage.sync.set\<close> and \<^verbatim>\<open>chrome.permissions.request\<close>. Every call is
  recorded as an event, so that "no permission request" and "no storage write" are
  statements about the trace.
\<close>

definition STORAGE_KEY :: string where
  "STORAGE_KEY = ''customDomains''"

datatype event =
    StorageGet string
  | StorageSet string "string list"
  | PermissionsRequest "string list"
  | ConsoleError

text \<open>What a rejected promise of the host throws into the caller.\<close>

datatype fault = StorageSetRejected | PermissionsRequestRejected

datatype permission_answer = Granted | Denied | RequestRejected

text \<open>
  How the host answers during one operation, which makes at most one read, one permission
  request and one write: \<open>read_throws\<close> covers everything that can throw inside the
  \<^verbatim>\<open>try\<close> block of \<^verbatim>\<open>loadDomainConfig\<close> (a rejected read, a stored value that is not a
  usable \<^verbatim>\<open>DomainConfig\<close>); \<open>write_rejects\<close> is a rejected \<^verbatim>\<open>set\<close> (quota, write rate).
\<close>

record env =
  read_throws :: bool
  permission :: permission_answer
  write_rejects :: bool

text \<open>
  The state one execution context sees: the value stored under \<^verbatim>\<open>STORAGE_KEY\<close> (\<open>None\<close>
  when the key is absent), the \<^verbatim>\<open>customDomains\<close> array of the module-level object
  \<^verbatim>\<open>DEFAULT_DOMAIN_CONFIG\<close> (empty when the module is loaded), and the events so far.
\<close>

record world =
  storage :: "string list option"
  DEFAULT_DOMAIN_CONFIG :: "string list"
  trace :: "event list"

definition fresh_module :: "string list option \<Rightarrow> world" where
  "fresh_module st = \<lparr>storage = st, DEFAULT_DOMAIN_CONFIG = [], trace = []\<rparr>"

text \<open>
  A \<^verbatim>\<open>DomainConfig\<close> held by a caller is either the module-level default object itself or
  an object of its own, created by \<^verbatim>\<open>loadDomainConfig\<close>.
\<close>

datatype config = TheDefault | Fresh "string list"

fun customDomains :: "world \<Rightarrow> config \<Rightarrow> string list" where
  "customDomains w TheDefault = DEFAULT_DOMAIN_CONFIG w"
| "customDomains w (Fresh xs) = xs"

text \<open>\<^verbatim>\<open>config.customDomains.push(x)\<close> and \<^verbatim>\<open>config.customDomains.splice(i, 1)\<close>, in place.\<close>

fun push :: "config \<Rightarrow> string \<Rightarrow> world \<Rightarrow> config \<times> world" where
  "push TheDefault x w = (TheDefault, w\<lparr>DEFAULT_DOMAIN_CONFIG := DEFAULT_DOMAIN_CONFIG w @ [x]\<rparr>)"
| "push (Fresh xs) x w = (Fresh (xs @ [x]), w)"

definition remove_at :: "nat \<Rightarrow> 'a list \<Rightarrow> 'a list" where
  "remove_at i xs = take i xs @ drop (Suc i) xs"

fun splice1 :: "config \<Rightarrow> nat \<Rightarrow> world \<Rightarrow> config \<times> world" where
  "splice1 TheDefault i w =
     (TheDefault, w\<lparr>DEFAULT_DOMAIN_CONFIG := remove_at i (DEFAULT_DOMAIN_CONFIG w)\<rparr>)"
| "splice1 (Fresh xs) i w = (Fresh (remove_at i xs), w)"

text \<open>\<^verbatim>\<open>xs.indexOf(x)\<close>: the first index holding \<open>x\<close>; \<open>None\<close> stands for \<open>-1\<close>.\<close>

fun indexOf :: "string list \<Rightarrow> string \<Rightarrow> nat option" where
  "indexOf [] x = None"
| "indexOf (y # ys) x =
     (if y = x then Some 0 else (case indexOf ys x of None \<Rightarrow> None | Some i \<Rightarrow> Some (Suc i)))"

definition log_event :: "event \<Rightarrow> world \<Rightarrow> world" where
  "log_event ev w = w\<lparr>trace := trace w @ [ev]\<rparr>"

subsection \<open>Domain config store\<close>

definition saveDomainConfig :: "env \<Rightarrow> config \<Rightarrow> world \<Rightarrow> (fault + unit) \<times> world" where
  "saveDomainConfig e cfg w =
     (let w1 = log_event (StorageSet STORAGE_KEY (customDomains w cfg)) w
      in if write_rejects e then (Inl StorageSetRejected, w1)
         else (Inr (), w1\<lparr>storage := Some (customDomains w cfg)\<rparr>))"

definition loadDomainConfig :: "env \<Rightarrow> world \<Rightarrow> config \<times> world" where
  "loadDomainConfig e w =
     (let w1 = log_event (StorageGet STORAGE_KEY) w
      in if read_throws e then (TheDefault, log_event ConsoleError w1)
         else (case storage w1 of
                 None \<Rightarrow> (TheDefault, w1)
               | Some stored \<Rightarrow> (Fresh (filter validateDomain stored), w1)))"

subsection \<open>Adding and removing custom domains\<close>

record result =
  success :: bool
  message :: string

definition addCustomDomain :: "env \<Rightarrow> string \<Rightarrow> world \<Rightarrow> (fault + result) \<times> world" where
  "addCustomDomain e domain w =
     (let normalized = normalizeDomain domain
      in if \<not> validateDomain normalized
         then (Inr \<lparr>success = False, message = ''invalid_domain_format''\<rparr>, w)
         else if normalized \<in> set DEFAULT_DOMAINS
         then (Inr \<lparr>success = False, message = ''domain_already_builtin''\<rparr>, w)
         else
           (let (cfg, w1) = loadDomainConfig e w
            in if normalized \<in> set (customDomains w1 cfg)
               then (Inr \<lparr>success = False, message = ''domain_already_exists''\<rparr>, w1)
               else
                 (let urlPatterns = domainToUrlPatterns normalized;
                      w2 = log_event (PermissionsRequest urlPatterns) w1
                  in case permission e of
                       RequestRejected \<Rightarrow> (Inl PermissionsRequestRejected, w2)
                     | Denied \<Rightarrow> (Inr \<lparr>success = False, message = ''permission_denied''\<rparr>, w2)
                     | Granted \<Rightarrow>
                         (let (cfg', w3) = push cfg normalized w2
                          in case saveDomainConfig e cfg' w3 of
                               (Inl f, w4) \<Rightarrow> (Inl f, w4)
                             | (Inr u, w4) \<Rightarrow>
                                 (Inr \<lparr>success = True, message = ''domain_added''\<rparr>, w4)))))"

definition removeCustomDomain :: "env \<Rightarrow> string \<Rightarrow> world \<Rightarrow> (fault + result) \<times> world" where
  "removeCustomDomain e domain w =
     (let normalized = normalizeDomain domain;
          (cfg, w1) = loadDomainConfig e w
      in case indexOf (customDomains w1 cfg) normalized of
           None \<Rightarrow> (Inr \<lparr>success = False, message = ''domain_not_found''\<rparr>, w1)
         | Some index \<Rightarrow>
             (let (cfg', w2) = splice1 cfg index w1
              in case saveDomainConfig e cfg' w2 of
                   (Inl f, w3) \<Rightarrow> (Inl f, w3)
                 | (Inr u, w3) \<Rightarrow> (Inr \<lparr>success = True, message = ''domain_removed''\<rparr>, w3)))"

subsection \<open>Injection eligibility (background.ts)\<close>

text \<open>
  \<^verbatim>\<open>new URL(url).hostname\<close> belongs to the host platform; \<open>hostname\<close> is that parser,
  \<open>None\<close> when the constructor throws.
\<close>

definition matchesCustomDomain ::
  "(string \<Rightarrow> string option) \<Rightarrow> env \<Rightarrow> string \<Rightarrow> world \<Rightarrow> bool \<times> world" where
  "matchesCustomDomain hostname e url w =
     (let (cfg, w1) = loadDomainConfig e w
      in if length (customDomains w1 cfg) = 0 then (False, w1)
         else (case hostname url of
                 None \<Rightarrow> (False, w1)
               | Some h \<Rightarrow>
                   (list_ex (\<lambda>domain. h = domain \<or> endsWith h (''.'' @ domain))
                      (customDomains w1 cfg), w1)))"

subsection \<open>Handlers of the options page (domains.vue)\<close>

text \<open>
  The refs of the page. \<open>error_key\<close> and \<open>success_key\<close> hold the message key given to
  the translation function \<^verbatim>\<open>t\<close> (\<open>None\<close> for \<^verbatim>\<open>null\<close>); \<open>customDomains_ref\<close> is the array
  assigned from the loaded config. The timer that clears the success message three seconds
  later is left out: the handlers are followed until their promise settles.
\<close>

record page =
  customDomains_ref :: config
  newDomain :: string
  loading :: bool
  error_key :: "string option"
  success_key :: "string option"

definition loadDomains :: "env \<Rightarrow> page \<times> world \<Rightarrow> page \<times> world" where
  "loadDomains e pw =
     (case pw of (p, w) \<Rightarrow>
        (case loadDomainConfig e w of (cfg, w1) \<Rightarrow> (p\<lparr>customDomains_ref := cfg\<rparr>, w1)))"

text \<open>
  \<open>e\<close> is the host's behaviour during the mutating call, \<open>e2\<close> during the reload that
  follows a success. The \<^verbatim>\<open>catch\<close> branch is the \<open>Inl\<close> case; \<^verbatim>\<open>finally\<close> resets
  \<open>loading\<close> on every path through the \<^verbatim>\<open>try\<close>.
\<close>

definition handleAddDomain ::
  "env \<Rightarrow> env \<Rightarrow> page \<times> world \<Rightarrow> (fault + unit) \<times> page \<times> world" where
  "handleAddDomain e e2 pw =
     (case pw of (p, w) \<Rightarrow>
        if trim (newDomain p) = []
        then (Inr (), p\<lparr>error_key := Some ''domains.error.empty''\<rparr>, w)
        else if \<not> validateDomain (newDomain p)
        then (Inr (), p\<lparr>error_key := Some ''domains.error.invalid_format''\<rparr>, w)
        else
          (let p1 = p\<lparr>loading := True, error_key := None, success_key := None\<rparr>
           in case addCustomDomain e (newDomain p1) w of
                (Inr r, w1) \<Rightarrow>
                  if success r
                  then (let p2 = p1\<lparr>success_key := Some ''domains.success.added'',
                                     newDomain := []\<rparr>;
                            (p3, w2) = loadDomains e2 (p2, w1)
                        in (Inr (), p3\<lparr>loading := False\<rparr>, w2))
                  else (Inr (), p1\<lparr>error_key := Some (''domains.error.'' @ message r),
                                    loading := False\<rparr>, w1)
              | (Inl f, w1) \<Rightarrow>
                  (Inr (), p1\<lparr>error_key := Some ''domains.error.unknown'', loading := False\<rparr>,
                   log_event ConsoleError w1)))"

definition handleRemoveDomain ::
  "env \<Rightarrow> env \<Rightarrow> string \<Rightarrow> page \<times> world \<Rightarrow> (fault + unit) \<times> page \<times> world" where
  "handleRemoveDomain e e2 domain pw =
     (case pw of (p, w) \<Rightarrow>
        (let p1 = p\<lparr>loading := True, error_key := None, success_key := None\<rparr>
         in case removeCustomDomain e domain w of
              (Inr r, w1) \<Rightarrow>
                if success r
                then (let p2 = p1\<lparr>success_key := Some ''domains.success.removed''\<rparr>;
                          (p3, w2) = loadDomains e2 (p2, w1)
                      in (Inr (), p3\<lparr>loading := False\<rparr>, w2))
                else (Inr (), p1\<lparr>error_key := Some (''domains.error.'' @ message r),
                                  loading := False\<rparr>, w1)
            | (Inl f, w1) \<Rightarrow>
                (Inr (), p1\<lparr>error_key := Some ''domains.error.unknown'', loading := False\<rparr>,
                 log_event ConsoleError w1)))"

subsection \<open>Sequences of operations and the data-model invariants\<close>

datatype request = Add string | Remove string

fun perform :: "env \<times> request \<Rightarrow> world \<Rightarrow> world" where
  "perform (e, Add d) w = snd (addCustomDomain e d w)"
| "perform (e, Remove d) w = snd (removeCustomDomain e d w)"

definition run :: "(env \<times> request) list \<Rightarrow> world \<Rightarrow> world" where
  "run ops w = fold perform ops w"

text \<open>The persisted list: an absent key stands for the empty list.\<close>

definition persisted :: "world \<Rightarrow> string list" where
  "persisted w = (case storage w of None \<Rightarrow> [] | Some xs \<Rightarrow> xs)"

text \<open>The list a \<^verbatim>\<open>loadDomainConfig\<close> call hands to its caller.\<close>

definition loaded :: "env \<Rightarrow> world \<Rightarrow> string list" where
  "loaded e w = (case loadDomainConfig e w of (cfg, w1) \<Rightarrow> customDomains w1 cfg)"

definition domain_invariants :: "string list \<Rightarrow> bool" where
  "domain_invariants xs =
     (list_all (\<lambda>x. normalizeDomain x = x \<and> validateDomain x
                  \<and> list_all (\<lambda>b. toLowerCase x \<noteq> toLowerCase b) DEFAULT_DOMAINS) xs
      \<and> distinct xs)"

section \<open>Properties of the pure functions\<close>

lemma length_flatMap_patterns:
  "length (flatMap domainToUrlPatterns xs) = 2 * length xs"
  by (induction xs) (simp_all add: flatMap_def domainToUrlPatterns_def)

lemma allPatterns_spec_Nil:
  "allPatterns_spec [] cs = flatMap domainToUrlPatterns cs"
  by (induction cs) (simp_all add: flatMap_def domainToUrlPatterns_def patternsFor_spec_def)

lemma allPatterns_spec_flatMap:
  "allPatterns_spec bs cs = flatMap domainToUrlPatterns bs @ flatMap domainToUrlPatterns cs"
proof (induction bs)
  case Nil
  show ?case by (simp add: allPatterns_spec_Nil) (simp add: flatMap_def)
next
  case (Cons b bs)
  then show ?case by (simp add: flatMap_def domainToUrlPatterns_def patternsFor_spec_def)
qed

text \<open>
  C7: for every domain the pattern generator returns exactly two strings, the exact-host
  pattern \<^verbatim>\<open>https://d/*\<close> and then the wildcard-subdomain pattern \<^verbatim>\<open>https://*.d/*\<close>; for
  \<^verbatim>\<open>example.com\<close> these are \<^verbatim>\<open>https://example.com/*\<close> and \<^verbatim>\<open>https://*.example.com/*\<close>.
\<close>

theorem domainToUrlPatterns_exact:
  "domainToUrlPatterns d = patternsFor_spec d
   \<and> length (domainToUrlPatterns d) = 2
   \<and> domainToUrlPatterns d ! 0 = ''https://'' @ d @ ''/*''
   \<and> domainToUrlPatterns d ! 1 = ''https://*.'' @ d @ ''/*''
   \<and> domainToUrlPatterns ''example.com'' = [''https://example.com/*'', ''https://*.example.com/*'']"
  by (simp add: domainToUrlPatterns_def patternsFor_spec_def)

text \<open>
  C6: for every list of custom domains, \<^verbatim>\<open>getAllUrlPatterns\<close> returns the patterns of the
  built-in domains in built-in order followed by the patterns of the custom domains in
  custom order, two per domain and nothing removed; for the empty list (also when the
  argument is omitted) it returns exactly the twelve built-in patterns.
\<close>

theorem getAllUrlPatterns_concat:
  "getAllUrlPatterns (Some cs) = allPatterns_spec DEFAULT_DOMAINS cs
   \<and> getAllUrlPatterns (Some cs) =
       getAllUrlPatterns (Some []) @ concat (map domainToUrlPatterns cs)
   \<and> length (getAllUrlPatterns (Some cs)) = 2 * length DEFAULT_DOMAINS + 2 * length cs
   \<and> getAllUrlPatterns (Some []) = concat (map domainToUrlPatterns DEFAULT_DOMAINS)
   \<and> length (getAllUrlPatterns (Some [])) = 2 * length DEFAULT_DOMAINS
   \<and> getAllUrlPatterns None = getAllUrlPatterns (Some [])
   \<and> getAllUrlPatterns (Some []) =
       [''https://feishu.cn/*'', ''https://*.feishu.cn/*'',
        ''https://feishu.net/*'', ''https://*.feishu.net/*'',
        ''https://larksuite.com/*'', ''https://*.larksuite.com/*'',
        ''https://feishu-pre.net/*'', ''https://*.feishu-pre.net/*'',
        ''https://larkoffice.com/*'', ''https://*.larkoffice.com/*'',
        ''https://larkenterprise.com/*'', ''https://*.larkenterprise.com/*'']"
proof -
  have a: "getAllUrlPatterns (Some cs) = allPatterns_spec DEFAULT_DOMAINS cs"
    by (simp add: getAllUrlPatterns_def allPatterns_spec_flatMap)
  have b: "getAllUrlPatterns (Some cs) =
       getAllUrlPatterns (Some []) @ concat (map domainToUrlPatterns cs)"
    by (simp add: getAllUrlPatterns_def flatMap_def)
  have c: "length (getAllUrlPatterns (Some cs)) = 2 * length DEFAULT_DOMAINS + 2 * length cs"
    by (simp add: getAllUrlPatterns_def length_flatMap_patterns)
  have d: "getAllUrlPatterns (Some []) = concat (map domainToUrlPatterns DEFAULT_DOMAINS)"
    by (simp add: getAllUrlPatterns_def flatMap_def)
  have e: "length (getAllUrlPatterns (Some [])) = 2 * length DEFAULT_DOMAINS"
    by (simp add: getAllUrlPatterns_def length_flatMap_patterns)
  have f: "getAllUrlPatterns None = getAllUrlPatterns (Some [])"
    by (simp add: getAllUrlPatterns_def)
  have g: "getAllUrlPatterns (Some []) =
       [''https://feishu.cn/*'', ''https://*.feishu.cn/*'',
        ''https://feishu.net/*'', ''https://*.feishu.net/*'',
        ''https://larksuite.com/*'', ''https://*.larksuite.com/*'',
        ''https://feishu-pre.net/*'', ''https://*.feishu-pre.net/*'',
        ''https://larkoffice.com/*'', ''https://*.larkoffice.com/*'',
        ''https://larkenterprise.com/*'', ''https://*.larkenterprise.com/*'']"
    by (simp add: getAllUrlPatterns_def flatMap_def domainToUrlPatterns_def DEFAULT_DOMAINS_def)
  from a b c d e f g show ?thesis by blast
qed

section \<open>The matcher decides the language of the expression\<close>

inductive_cases matches_NeverE: "matches Never s"
inductive_cases matches_EpsE: "matches Eps s"
inductive_cases matches_ClassE: "matches (Class cs) s"
inductive_cases matches_SeqE: "matches (Seq r s) w"
inductive_cases matches_AltE: "matches (Alt r s) w"

lemma nullable_iff: "nullable r \<longleftrightarrow> matches r []"
proof (induction r)
  case (Seq r s)
  then show ?case
    by (auto intro: m_Seq [of r "[]" s "[]", simplified] elim!: matches_SeqE)
qed (auto intro: matches.intros elim: matches_NeverE matches_ClassE matches_AltE)

lemma matches_Star_Cons:
  assumes "matches q w" and "q = Star r" and "w = c # s"
  shows "\<exists>u v. s = u @ v \<and> matches r (c # u) \<and> matches (Star r) v"
  using assms
proof (induction q w arbitrary: s rule: matches.induct)
  case (m_StarStep r' u v)
  show ?case
  proof (cases u)
    case Nil
    then show ?thesis using m_StarStep by simp
  next
    case (Cons a u')
    then show ?thesis using m_StarStep by auto
  qed
qed simp_all

lemma deriv_iff: "matches (deriv c r) s \<longleftrightarrow> matches r (c # s)"
proof (induction r arbitrary: s)
  case Never
  show ?case by (auto elim: matches_NeverE)
next
  case Eps
  show ?case by (auto elim: matches_NeverE matches_EpsE)
next
  case (Class cs)
  show ?case by (auto intro: matches.intros elim: matches_NeverE matches_EpsE matches_ClassE)
next
  case (Seq r1 r2)
  show ?case
  proof
    assume "matches (deriv c (Seq r1 r2)) s"
    then show "matches (Seq r1 r2) (c # s)"
      using Seq nullable_iff [of r1]
      by (auto split: if_splits elim!: matches_SeqE matches_AltE
          intro: m_Seq [of r1 "c # u" r2 v for u v, simplified] m_Seq [of r1 "[]" r2, simplified])
  next
    assume "matches (Seq r1 r2) (c # s)"
    then obtain u v where uv: "c # s = u @ v" "matches r1 u" "matches r2 v"
      by (auto elim: matches_SeqE)
    show "matches (deriv c (Seq r1 r2)) s"
    proof (cases u)
      case Nil
      then show ?thesis
        using uv Seq nullable_iff [of r1] by (auto intro: matches.intros)
    next
      case (Cons a u')
      then have "matches (deriv c r1) u'" "s = u' @ v"
        using uv Seq by auto
      then show ?thesis
        using uv by (auto intro: matches.intros)
    qed
  qed
next
  case (Alt r1 r2)
  then show ?case by (auto intro: matches.intros elim!: matches_AltE)
next
  case (Star r)
  show ?case
  proof
    assume "matches (deriv c (Star r)) s"
    then obtain u v where "s = u @ v" "matches (deriv c r) u" "matches (Star r) v"
      by (auto elim: matches_SeqE)
    then show "matches (Star r) (c # s)"
      using Star m_StarStep [of r "c # u" v] by simp
  next
    assume "matches (Star r) (c # s)"
    then obtain u v where "s = u @ v" "matches r (c # u)" "matches (Star r) v"
      using matches_Star_Cons by blast
    then show "matches (deriv c (Star r)) s"
      using Star by (auto intro: matches.intros)
  qed
qed

lemma foldl_deriv_iff: "matches (foldl (\<lambda>q c. deriv c q) r s) t \<longleftrightarrow> matches r (s @ t)"
  by (induction s arbitrary: r) (simp_all add: deriv_iff)

lemma regex_test_iff: "regex_test r s \<longleftrightarrow> matches r s"
  by (simp add: regex_test_def nullable_iff foldl_deriv_iff)

section \<open>Normalisation and the built-in domains\<close>

subsection \<open>Strings\<close>

lemma of_char_less_256: "(of_char c :: nat) < 256"
  by (cases c) simp

lemma toLowerChar_idem: "toLowerChar (toLowerChar c) = toLowerChar c"
  using of_char_less_256 [of c] by (auto simp add: toLowerChar_def Let_def)

lemma isWhiteSpace_toLowerChar: "isWhiteSpace (toLowerChar c) = isWhiteSpace c"
  using of_char_less_256 [of c] by (auto simp add: toLowerChar_def isWhiteSpace_def Let_def)

lemma toLowerCase_idem: "toLowerCase (toLowerCase s) = toLowerCase s"
  by (simp add: toLowerCase_def toLowerChar_idem)

lemma dropWhile_map_same:
  "(\<And>x. P (f x) = P x) \<Longrightarrow> dropWhile P (map f xs) = map f (dropWhile P xs)"
  by (induction xs) auto

lemma trim_toLowerCase: "trim (toLowerCase s) = toLowerCase (trim s)"
proof -
  have d: "dropWhile isWhiteSpace (map toLowerChar xs) = map toLowerChar (dropWhile isWhiteSpace xs)"
    for xs
    by (rule dropWhile_map_same) (rule isWhiteSpace_toLowerChar)
  show ?thesis
    unfolding trim_def toLowerCase_def by (simp only: d rev_map)
qed

lemma dropWhile_fixed: "xs = [] \<or> \<not> P (hd xs) \<Longrightarrow> dropWhile P xs = xs"
  by (cases xs) auto

lemma hd_rev_dropWhile_rev:
  assumes "dropWhile P (rev t) \<noteq> []"
  shows "hd (rev (dropWhile P (rev t))) = hd t"
proof -
  obtain ys where ys: "rev t = takeWhile P (rev t) @ dropWhile P (rev t)"
    by simp
  have "last (dropWhile P (rev t)) = last (rev t)"
    using assms by (metis last_appendR takeWhile_dropWhile_id)
  moreover have "t \<noteq> []" using assms by auto
  ultimately show ?thesis
    using assms by (simp add: hd_rev last_rev)
qed

lemma trim_no_leading: "dropWhile P (rev (dropWhile P (rev (dropWhile P s)))) =
    rev (dropWhile P (rev (dropWhile P s)))"
proof (cases "dropWhile P (rev (dropWhile P s)) = []")
  case True
  then show ?thesis by (metis dropWhile.simps(1) rev.simps(1))
next
  case False
  then have ne: "dropWhile P s \<noteq> []"
    by (metis dropWhile.simps(1) rev.simps(1))
  have "hd (rev (dropWhile P (rev (dropWhile P s)))) = hd (dropWhile P s)"
    using False by (rule hd_rev_dropWhile_rev)
  moreover have "\<not> P (hd (dropWhile P s))"
    using ne by (rule hd_dropWhile)
  ultimately have "\<not> P (hd (rev (dropWhile P (rev (dropWhile P s)))))"
    by simp
  then show ?thesis
    by (simp add: dropWhile_fixed)
qed

lemma trim_idem: "trim (trim s) = trim s"
  by (simp add: trim_def trim_no_leading)

lemma normalizeDomain_idem: "normalizeDomain (normalizeDomain d) = normalizeDomain d"
  by (simp add: normalizeDomain_def trim_toLowerCase trim_idem toLowerCase_idem)

lemma toLowerCase_normalizeDomain: "toLowerCase (normalizeDomain d) = normalizeDomain d"
  by (simp add: normalizeDomain_def toLowerCase_idem)

lemma startsWith_iff: "startsWith s p \<longleftrightarrow> (\<exists>r. s = p @ r)"
  by (induction s p rule: startsWith.induct) auto

lemma endsWith_iff: "endsWith s suffix \<longleftrightarrow> (\<exists>p. s = p @ suffix)"
proof
  assume "endsWith s suffix"
  then obtain r where "rev s = rev suffix @ r"
    by (auto simp add: endsWith_def startsWith_iff)
  then have "s = rev r @ suffix"
    by (metis rev_append rev_rev_ident)
  then show "\<exists>p. s = p @ suffix" ..
next
  assume "\<exists>p. s = p @ suffix"
  then show "endsWith s suffix"
    by (auto simp add: endsWith_def startsWith_iff)
qed

subsection \<open>Built-in domains\<close>

lemma builtins_checked:
  "list_all (\<lambda>b. validateDomain b \<and> normalizeDomain b = b \<and> toLowerCase b = b) DEFAULT_DOMAINS"
  by code_simp

lemma builtin_valid: "b \<in> set DEFAULT_DOMAINS \<Longrightarrow> validateDomain b"
  using builtins_checked by (simp add: list_all_iff)

lemma builtin_normalized: "b \<in> set DEFAULT_DOMAINS \<Longrightarrow> normalizeDomain b = b"
  using builtins_checked by (simp add: list_all_iff)

lemma builtin_lower: "b \<in> set DEFAULT_DOMAINS \<Longrightarrow> toLowerCase b = b"
  using builtins_checked by (simp add: list_all_iff)

section \<open>The store and the mutating operations\<close>

subsection \<open>Reading the store\<close>

lemma indexOf_None_iff: "indexOf xs x = None \<longleftrightarrow> x \<notin> set xs"
  by (induction xs) (auto split: option.splits)

lemma indexOf_Some_less: "indexOf xs x = Some i \<Longrightarrow> i < length xs \<and> xs ! i = x"
  by (induction xs arbitrary: i) (auto split: option.splits if_splits)

lemma loadDomainConfig_storage [simp]: "storage (snd (loadDomainConfig e w)) = storage w"
  by (simp add: loadDomainConfig_def log_event_def Let_def split: option.splits)

lemma loadDomainConfig_default [simp]:
  "DEFAULT_DOMAIN_CONFIG (snd (loadDomainConfig e w)) = DEFAULT_DOMAIN_CONFIG w"
  by (simp add: loadDomainConfig_def log_event_def Let_def split: option.splits)

lemma loaded_eq:
  "loaded e w =
     (if read_throws e then DEFAULT_DOMAIN_CONFIG w
      else case storage w of None \<Rightarrow> DEFAULT_DOMAIN_CONFIG w
           | Some stored \<Rightarrow> filter validateDomain stored)"
  by (simp add: loaded_def loadDomainConfig_def log_event_def Let_def split: option.splits)

lemma loaded_cong:
  "storage w' = storage w \<Longrightarrow> DEFAULT_DOMAIN_CONFIG w' = DEFAULT_DOMAIN_CONFIG w \<Longrightarrow>
   loaded e w' = loaded e w"
  by (simp add: loaded_eq split: option.splits)

lemma loaded_fst_snd:
  "customDomains (snd (loadDomainConfig e w)) (fst (loadDomainConfig e w)) = loaded e w"
  by (simp add: loaded_def split: prod.splits)

subsection \<open>The data-model invariants\<close>

lemma domain_invariants_iff:
  "domain_invariants xs \<longleftrightarrow>
     (\<forall>x\<in>set xs. normalizeDomain x = x \<and> validateDomain x
         \<and> (\<forall>b\<in>set DEFAULT_DOMAINS. toLowerCase x \<noteq> toLowerCase b))
     \<and> distinct xs"
  by (simp add: domain_invariants_def list_all_iff)

lemma domain_invariants_filter: "domain_invariants xs \<Longrightarrow> domain_invariants (filter P xs)"
  by (simp add: domain_invariants_iff)

lemma filter_validate_id: "domain_invariants xs \<Longrightarrow> filter validateDomain xs = xs"
  by (simp add: domain_invariants_iff filter_id_conv)

lemma set_remove_at: "set (remove_at i xs) \<subseteq> set xs"
  unfolding remove_at_def by (auto dest: in_set_takeD in_set_dropD)

lemma distinct_remove_at: "distinct xs \<Longrightarrow> distinct (remove_at i xs)"
proof -
  assume d: "distinct xs"
  have "xs = take i xs @ drop i xs" by simp
  have s: "set (drop (Suc i) xs) \<subseteq> set (drop i xs)"
    by (metis Suc_n_not_le_n nat_le_linear set_drop_subset_set_drop)
  have "distinct (take i xs @ drop i xs)" using d by simp
  then have "set (take i xs) \<inter> set (drop i xs) = {}" by (simp only: distinct_append)
  with s have "set (take i xs) \<inter> set (drop (Suc i) xs) = {}" by blast
  with d show ?thesis by (simp add: remove_at_def)
qed

lemma domain_invariants_remove_at:
  "domain_invariants xs \<Longrightarrow> domain_invariants (remove_at i xs)"
  using set_remove_at [of i xs] by (auto simp add: domain_invariants_iff distinct_remove_at)

lemma domain_invariants_snoc:
  assumes "domain_invariants xs"
    and "validateDomain (normalizeDomain d)"
    and "normalizeDomain d \<notin> set DEFAULT_DOMAINS"
    and "normalizeDomain d \<notin> set xs"
  shows "domain_invariants (xs @ [normalizeDomain d])"
proof -
  have "toLowerCase (normalizeDomain d) \<noteq> toLowerCase b" if "b \<in> set DEFAULT_DOMAINS" for b
    using that assms(3) by (auto simp add: toLowerCase_normalizeDomain builtin_lower)
  then show ?thesis
    using assms by (simp add: domain_invariants_iff normalizeDomain_idem)
qed

lemma domain_invariants_Nil: "domain_invariants []"
  by (simp add: domain_invariants_def)

lemma domain_invariants_loaded:
  "domain_invariants (persisted w) \<Longrightarrow> domain_invariants (DEFAULT_DOMAIN_CONFIG w) \<Longrightarrow>
   domain_invariants (loaded e w)"
  by (auto simp add: loaded_eq persisted_def domain_invariants_filter split: option.splits)

lemma loaded_stored:
  "\<not> read_throws e \<Longrightarrow> storage w = Some xs \<Longrightarrow> domain_invariants xs \<Longrightarrow> loaded e w = xs"
  by (simp add: loaded_eq filter_validate_id)

text \<open>What one call of \<open>addCustomDomain\<close> does to the two lists.\<close>

lemma addCustomDomain_lists:
  "(storage (snd (addCustomDomain e d w)) = storage w
      \<or> storage (snd (addCustomDomain e d w)) = Some (loaded e w @ [normalizeDomain d])
         \<and> validateDomain (normalizeDomain d) \<and> normalizeDomain d \<notin> set DEFAULT_DOMAINS
         \<and> normalizeDomain d \<notin> set (loaded e w) \<and> permission e = Granted \<and> \<not> write_rejects e)
   \<and> (DEFAULT_DOMAIN_CONFIG (snd (addCustomDomain e d w)) = DEFAULT_DOMAIN_CONFIG w
      \<or> DEFAULT_DOMAIN_CONFIG (snd (addCustomDomain e d w)) = loaded e w @ [normalizeDomain d]
         \<and> loaded e w = DEFAULT_DOMAIN_CONFIG w
         \<and> validateDomain (normalizeDomain d) \<and> normalizeDomain d \<notin> set DEFAULT_DOMAINS
         \<and> normalizeDomain d \<notin> set (loaded e w) \<and> permission e = Granted)"
  by (auto simp add: addCustomDomain_def loaded_def loadDomainConfig_def saveDomainConfig_def
      log_event_def Let_def split: option.splits permission_answer.splits prod.splits)

lemma removeCustomDomain_lists:
  "(storage (snd (removeCustomDomain e d w)) = storage w
      \<or> (\<exists>i. storage (snd (removeCustomDomain e d w)) = Some (remove_at i (loaded e w))))
   \<and> (DEFAULT_DOMAIN_CONFIG (snd (removeCustomDomain e d w)) = DEFAULT_DOMAIN_CONFIG w
      \<or> (\<exists>i. DEFAULT_DOMAIN_CONFIG (snd (removeCustomDomain e d w)) =
               remove_at i (DEFAULT_DOMAIN_CONFIG w)))"
  by (auto simp add: removeCustomDomain_def loaded_def loadDomainConfig_def saveDomainConfig_def
      log_event_def Let_def split: option.splits prod.splits)

lemma perform_invariants:
  assumes "domain_invariants (persisted w)" and "domain_invariants (DEFAULT_DOMAIN_CONFIG w)"
  shows "domain_invariants (persisted (perform op w))
       \<and> domain_invariants (DEFAULT_DOMAIN_CONFIG (perform op w))"
proof -
  obtain e r where op: "op = (e, r)" by (cases op)
  have l: "domain_invariants (loaded e w)"
    using assms by (rule domain_invariants_loaded)
  show ?thesis
  proof (cases r)
    case (Add d)
    show ?thesis
      using addCustomDomain_lists [of e d w] assms l
      by (auto simp add: op Add persisted_def domain_invariants_snoc)
  next
    case (Remove d)
    show ?thesis
      using removeCustomDomain_lists [of e d w] assms l
      by (auto simp add: op Remove persisted_def domain_invariants_remove_at)
  qed
qed

text \<open>
  C3: starting from a persisted config that satisfies the data-model invariants (with the
  module-level default object satisfying them too, as it does when the module is loaded,
  being empty), every sequence of \<^verbatim>\<open>addCustomDomain\<close> and \<^verbatim>\<open>removeCustomDomain\<close> calls,
  whatever the host answers, leaves a persisted list whose elements are normalized, pass
  \<^verbatim>\<open>validateDomain\<close>, differ from every built-in domain ignoring case, and are pairwise
  distinct.
\<close>

theorem invariants_preserved:
  assumes "domain_invariants (persisted w)" and "domain_invariants (DEFAULT_DOMAIN_CONFIG w)"
  shows "domain_invariants (persisted (run ops w))
       \<and> domain_invariants (DEFAULT_DOMAIN_CONFIG (run ops w))"
  using assms
proof (induction ops arbitrary: w)
  case Nil
  then show ?case by (simp add: run_def)
next
  case (Cons op ops)
  have "domain_invariants (persisted (perform op w))
       \<and> domain_invariants (DEFAULT_DOMAIN_CONFIG (perform op w))"
    using Cons.prems by (rule perform_invariants)
  then have "domain_invariants (persisted (run ops (perform op w)))
       \<and> domain_invariants (DEFAULT_DOMAIN_CONFIG (run ops (perform op w)))"
    using Cons.IH by blast
  then show ?case by (simp add: run_def)
qed

theorem invariants_preserved_witness:
  "domain_invariants (persisted (fresh_module (Some [''example.com''])))
   \<and> domain_invariants (DEFAULT_DOMAIN_CONFIG (fresh_module (Some [''example.com''])))
   \<and> domain_invariants (persisted (run
        [(\<lparr>read_throws = False, permission = Granted, write_rejects = False\<rparr>,
          Add '' Corp.Example.ORG ''),
         (\<lparr>read_throws = False, permission = Denied, write_rejects = False\<rparr>,
          Remove ''example.com'')]
        (fresh_module (Some [''example.com'']))))
   \<and> persisted (run
        [(\<lparr>read_throws = False, permission = Granted, write_rejects = False\<rparr>,
          Add '' Corp.Example.ORG ''),
         (\<lparr>read_throws = False, permission = Denied, write_rejects = False\<rparr>,
          Remove ''example.com'')]
        (fresh_module (Some [''example.com'']))) = [''corp.example.org'']"
proof -
  have c: "persisted (run
        [(\<lparr>read_throws = False, permission = Granted, write_rejects = False\<rparr>,
          Add '' Corp.Example.ORG ''),
         (\<lparr>read_throws = False, permission = Denied, write_rejects = False\<rparr>,
          Remove ''example.com'')]
        (fresh_module (Some [''example.com'']))) = [''corp.example.org'']"
    by code_simp
  have a: "domain_invariants (persisted (fresh_module (Some [''example.com''])))"
    by code_simp
  have b: "domain_invariants (DEFAULT_DOMAIN_CONFIG (fresh_module (Some [''example.com''])))"
    by code_simp
  from invariants_preserved [OF a b] a b c show ?thesis by blast
qed

text \<open>
  C5: for every built-in domain, \<^verbatim>\<open>addCustomDomain\<close> returns \<^verbatim>\<open>success = false\<close> with the
  message \<^verbatim>\<open>domain_already_builtin\<close> (the reason \<^verbatim>\<open>already_builtin\<close>) whatever the stored
  and in-memory lists hold and whatever the host would answer, and leaves the whole state
  as it was: no storage read, no permission request, no storage write.
\<close>

theorem add_builtin_rejected:
  assumes "d \<in> set DEFAULT_DOMAINS"
  shows "addCustomDomain e d w =
           (Inr \<lparr>success = False, message = ''domain_already_builtin''\<rparr>, w)"
  using assms by (simp add: addCustomDomain_def builtin_normalized builtin_valid)

theorem add_builtin_rejected_witness:
  "''larksuite.com'' \<in> set DEFAULT_DOMAINS
   \<and> addCustomDomain \<lparr>read_throws = False, permission = Granted, write_rejects = False\<rparr>
        ''larksuite.com'' (fresh_module (Some [''larksuite.com''])) =
       (Inr \<lparr>success = False, message = ''domain_already_builtin''\<rparr>,
        fresh_module (Some [''larksuite.com'']))"
proof -
  have a: "''larksuite.com'' \<in> set DEFAULT_DOMAINS"
    by (simp add: DEFAULT_DOMAINS_def)
  from add_builtin_rejected [OF a] a show ?thesis by blast
qed

text \<open>
  C2: when the host denies the permission request, \<^verbatim>\<open>addCustomDomain\<close> changes neither the
  stored value nor the in-memory default, so every later load returns what it returned
  before; and when the call reaches the request (the normalized input is valid, not built
  in and not in the loaded list) the result is \<^verbatim>\<open>success = false\<close> with the message
  \<^verbatim>\<open>permission_denied\<close>, the domain is still absent from the loaded list, and the request
  is the last event of the call (no write follows).
\<close>

theorem add_permission_denied:
  assumes "permission e = Denied"
  shows "storage (snd (addCustomDomain e d w)) = storage w
       \<and> DEFAULT_DOMAIN_CONFIG (snd (addCustomDomain e d w)) = DEFAULT_DOMAIN_CONFIG w
       \<and> (\<forall>e'. loaded e' (snd (addCustomDomain e d w)) = loaded e' w)
       \<and> (validateDomain (normalizeDomain d) \<and> normalizeDomain d \<notin> set DEFAULT_DOMAINS
            \<and> normalizeDomain d \<notin> set (loaded e w)
          \<longrightarrow> fst (addCustomDomain e d w) =
                Inr \<lparr>success = False, message = ''permission_denied''\<rparr>
              \<and> normalizeDomain d \<notin> set (loaded e (snd (addCustomDomain e d w)))
              \<and> trace (snd (addCustomDomain e d w)) =
                  trace (snd (loadDomainConfig e w))
                  @ [PermissionsRequest (domainToUrlPatterns (normalizeDomain d))])"
proof -
  have s: "storage (snd (addCustomDomain e d w)) = storage w"
    using addCustomDomain_lists [of e d w] assms by auto
  have f: "DEFAULT_DOMAIN_CONFIG (snd (addCustomDomain e d w)) = DEFAULT_DOMAIN_CONFIG w"
    using addCustomDomain_lists [of e d w] assms by auto
  have l: "loaded e' (snd (addCustomDomain e d w)) = loaded e' w" for e'
    using s f by (rule loaded_cong)
  have r: "fst (addCustomDomain e d w) = Inr \<lparr>success = False, message = ''permission_denied''\<rparr>
         \<and> trace (snd (addCustomDomain e d w)) =
                  trace (snd (loadDomainConfig e w))
                  @ [PermissionsRequest (domainToUrlPatterns (normalizeDomain d))]"
    if "validateDomain (normalizeDomain d)" and "normalizeDomain d \<notin> set DEFAULT_DOMAINS"
      and "normalizeDomain d \<notin> set (loaded e w)"
    using that assms
    by (simp add: addCustomDomain_def loaded_def log_event_def Let_def split: prod.splits)
  from s f l r show ?thesis by simp
qed

theorem add_permission_denied_witness:
  "permission \<lparr>read_throws = False, permission = Denied, write_rejects = False\<rparr> = Denied
   \<and> validateDomain (normalizeDomain ''Docs.Example.com'')
   \<and> normalizeDomain ''Docs.Example.com'' \<notin> set DEFAULT_DOMAINS
   \<and> normalizeDomain ''Docs.Example.com'' \<notin>
       set (loaded \<lparr>read_throws = False, permission = Denied, write_rejects = False\<rparr>
              (fresh_module (Some [''example.com''])))
   \<and> fst (addCustomDomain \<lparr>read_throws = False, permission = Denied, write_rejects = False\<rparr>
        ''Docs.Example.com'' (fresh_module (Some [''example.com'']))) =
       Inr \<lparr>success = False, message = ''permission_denied''\<rparr>
   \<and> storage (snd (addCustomDomain
         \<lparr>read_throws = False, permission = Denied, write_rejects = False\<rparr>
         ''Docs.Example.com'' (fresh_module (Some [''example.com''])))) = Some [''example.com'']"
proof -
  have a: "permission \<lparr>read_throws = False, permission = Denied, write_rejects = False\<rparr> = Denied"
    by simp
  have b: "validateDomain (normalizeDomain ''Docs.Example.com'')"
    by code_simp
  have c: "normalizeDomain ''Docs.Example.com'' \<notin> set DEFAULT_DOMAINS"
    by code_simp
  have d: "normalizeDomain ''Docs.Example.com'' \<notin>
       set (loaded \<lparr>read_throws = False, permission = Denied, write_rejects = False\<rparr>
              (fresh_module (Some [''example.com''])))"
    by code_simp
  have e: "storage (fresh_module (Some [''example.com''])) = Some [''example.com'']"
    by (simp add: fresh_module_def)
  from add_permission_denied [OF a, of "''Docs.Example.com''" "fresh_module (Some [''example.com''])"]
    a b c d e show ?thesis by simp
qed

subsection \<open>Domains that were never added\<close>

lemma loaded_subset: "set (loaded e w) \<subseteq> set (persisted w) \<union> set (DEFAULT_DOMAIN_CONFIG w)"
  by (auto simp add: loaded_eq persisted_def split: option.splits)

lemma notin_remove_at: "x \<notin> set xs \<Longrightarrow> x \<notin> set (remove_at i xs)"
  using set_remove_at [of i xs] by blast

lemma perform_keeps_absent:
  assumes "x \<notin> set (persisted w) \<union> set (DEFAULT_DOMAIN_CONFIG w)"
    and "\<And>d. snd op = Add d \<Longrightarrow> normalizeDomain d \<noteq> x"
  shows "x \<notin> set (persisted (perform op w)) \<union> set (DEFAULT_DOMAIN_CONFIG (perform op w))"
proof -
  obtain e r where op: "op = (e, r)" by (cases op)
  have l: "x \<notin> set (loaded e w)"
    using assms(1) loaded_subset [of e w] by blast
  show ?thesis
  proof (cases r)
    case (Add d)
    then have "normalizeDomain d \<noteq> x" using assms(2) op by simp
    then show ?thesis
      using addCustomDomain_lists [of e d w] assms(1) l
      by (auto simp add: op Add persisted_def)
  next
    case (Remove d)
    show ?thesis
      using removeCustomDomain_lists [of e d w] assms(1) l
      by (auto simp add: op Remove persisted_def notin_remove_at)
  qed
qed

lemma never_added_not_loaded:
  assumes "x \<notin> set (persisted w) \<union> set (DEFAULT_DOMAIN_CONFIG w)"
    and "\<And>e d. (e, Add d) \<in> set ops \<Longrightarrow> normalizeDomain d \<noteq> x"
  shows "x \<notin> set (loaded e' (run ops w))"
proof -
  have "x \<notin> set (persisted (run ops w)) \<union> set (DEFAULT_DOMAIN_CONFIG (run ops w))"
    using assms
  proof (induction ops arbitrary: w)
    case Nil
    then show ?case by (simp add: run_def)
  next
    case (Cons op ops)
    have "x \<notin> set (persisted (perform op w)) \<union> set (DEFAULT_DOMAIN_CONFIG (perform op w))"
    proof (rule perform_keeps_absent)
      show "x \<notin> set (persisted w) \<union> set (DEFAULT_DOMAIN_CONFIG w)" by (rule Cons.prems(1))
      show "normalizeDomain d \<noteq> x" if "snd op = Add d" for d
        using Cons.prems(2) [of "fst op" d] that by (cases op) simp
    qed
    then have "x \<notin> set (persisted (run ops (perform op w)))
                 \<union> set (DEFAULT_DOMAIN_CONFIG (run ops (perform op w)))"
      using Cons.prems(2) by (intro Cons.IH) auto
    then show ?case by (simp add: run_def)
  qed
  then show ?thesis
    using loaded_subset [of e' "run ops w"] by blast
qed

subsection \<open>Removal of an absent domain, and the host-suffix check\<close>

lemma loaded_subset_persisted:
  "\<not> read_throws e \<Longrightarrow> storage w \<noteq> None \<Longrightarrow> set (loaded e w) \<subseteq> set (persisted w)"
  by (auto simp add: loaded_eq persisted_def)

text \<open>
  The rejecting branch of \<^verbatim>\<open>removeCustomDomain\<close>: when the normalized input is not in the
  list the call loads, it returns \<^verbatim>\<open>domain_not_found\<close> after the storage read alone, with
  the stored value, the in-memory default and every later load unchanged.
\<close>

lemma removeCustomDomain_not_loaded:
  assumes "normalizeDomain d \<notin> set (loaded e w)"
  shows "fst (removeCustomDomain e d w) =
           Inr \<lparr>success = False, message = ''domain_not_found''\<rparr>
       \<and> snd (removeCustomDomain e d w) = snd (loadDomainConfig e w)
       \<and> storage (snd (removeCustomDomain e d w)) = storage w
       \<and> DEFAULT_DOMAIN_CONFIG (snd (removeCustomDomain e d w)) = DEFAULT_DOMAIN_CONFIG w
       \<and> (\<forall>e'. loaded e' (snd (removeCustomDomain e d w)) = loaded e' w)"
proof -
  have n: "indexOf (loaded e w) (normalizeDomain d) = None"
    using assms by (simp add: indexOf_None_iff)
  have r: "removeCustomDomain e d w =
      (Inr \<lparr>success = False, message = ''domain_not_found''\<rparr>, snd (loadDomainConfig e w))"
    using n by (simp add: removeCustomDomain_def loaded_def Let_def split: prod.splits)
  have l: "loaded e' (snd (loadDomainConfig e w)) = loaded e' w" for e'
    by (rule loaded_cong) simp_all
  from r l show ?thesis by simp
qed

text \<open>
  C8: a remove of a domain that is not in the stored list is meant to return
  \<^verbatim>\<open>domain_not_found\<close> (the reason \<^verbatim>\<open>not_found\<close>) and to leave the stored state alone. On a
  freshly loaded module with no stored key, an add of \<^verbatim>\<open>docs.example.net\<close> whose
  permission is granted and whose write is rejected leaves the key absent, so the stored
  list does not hold the domain. The remove of \<^verbatim>\<open>docs.example.net\<close> that follows, with a
  working host, finds the domain in the default object that the add mutated: it returns
  \<^verbatim>\<open>success = true\<close> with \<^verbatim>\<open>domain_removed\<close>, writes the empty list under the key, and the
  load after it differs from the load before it.
\<close>

theorem remove_unstored_domain_succeeds:
  "storage (snd (addCustomDomain
       \<lparr>read_throws = False, permission = Granted, write_rejects = True\<rparr>
       ''docs.example.net'' (fresh_module None))) = None
   \<and> normalizeDomain ''docs.example.net'' \<notin> set (persisted (snd (addCustomDomain
       \<lparr>read_throws = False, permission = Granted, write_rejects = True\<rparr>
       ''docs.example.net'' (fresh_module None))))
   \<and> fst (removeCustomDomain
        \<lparr>read_throws = False, permission = Denied, write_rejects = False\<rparr>
        ''docs.example.net''
        (snd (addCustomDomain
          \<lparr>read_throws = False, permission = Granted, write_rejects = True\<rparr>
          ''docs.example.net'' (fresh_module None)))) =
       Inr \<lparr>success = True, message = ''domain_removed''\<rparr>
   \<and> storage (snd (removeCustomDomain
        \<lparr>read_throws = False, permission = Denied, write_rejects = False\<rparr>
        ''docs.example.net''
        (snd (addCustomDomain
          \<lparr>read_throws = False, permission = Granted, write_rejects = True\<rparr>
          ''docs.example.net'' (fresh_module None))))) = Some []
   \<and> loaded \<lparr>read_throws = False, permission = Denied, write_rejects = False\<rparr>
        (snd (addCustomDomain
          \<lparr>read_throws = False, permission = Granted, write_rejects = True\<rparr>
          ''docs.example.net'' (fresh_module None))) = [''docs.example.net'']
   \<and> loaded \<lparr>read_throws = False, permission = Denied, write_rejects = False\<rparr>
        (snd (removeCustomDomain
          \<lparr>read_throws = False, permission = Denied, write_rejects = False\<rparr>
          ''docs.example.net''
          (snd (addCustomDomain
            \<lparr>read_throws = False, permission = Granted, write_rejects = True\<rparr>
            ''docs.example.net'' (fresh_module None))))) = []"
  by code_simp

text \<open>
  C9: \<^verbatim>\<open>matchesCustomDomain\<close> answers true exactly when the URL parses and its host name
  equals a custom domain of the loaded config or ends with a dot followed by one; it
  answers false for a URL that does not parse and for an empty custom-domain list.
\<close>

theorem matchesCustomDomain_host_suffix:
  "fst (matchesCustomDomain hostname e url w) =
     (case hostname url of
        None \<Rightarrow> False
      | Some h \<Rightarrow> (\<exists>d\<in>set (loaded e w). h = d \<or> (\<exists>p. h = p @ ''.'' @ d)))
   \<and> (hostname url = None \<longrightarrow> \<not> fst (matchesCustomDomain hostname e url w))
   \<and> (loaded e w = [] \<longrightarrow> \<not> fst (matchesCustomDomain hostname e url w))"
proof -
  have m: "fst (matchesCustomDomain hostname e url w) =
     (case hostname url of
        None \<Rightarrow> False
      | Some h \<Rightarrow> (\<exists>d\<in>set (loaded e w). h = d \<or> (\<exists>p. h = p @ ''.'' @ d)))"
    by (auto simp add: matchesCustomDomain_def loaded_def Let_def list_ex_iff endsWith_iff
        split: prod.splits option.splits)
  then show ?thesis by (auto split: option.splits)
qed

theorem matchesCustomDomain_host_suffix_witness:
  "fst (matchesCustomDomain (\<lambda>u. if u = ''https://docs.example.com/wiki'' then Some ''docs.example.com'' else None)
        \<lparr>read_throws = False, permission = Denied, write_rejects = False\<rparr>
        ''https://docs.example.com/wiki'' (fresh_module (Some [''example.com''])))
   \<and> \<not> fst (matchesCustomDomain (\<lambda>u. if u = ''https://docs.example.com/wiki'' then Some ''docs.example.com'' else None)
        \<lparr>read_throws = False, permission = Denied, write_rejects = False\<rparr>
        ''not a url'' (fresh_module (Some [''example.com''])))
   \<and> \<not> fst (matchesCustomDomain (\<lambda>u. if u = ''https://docs.example.com/wiki'' then Some ''docs.example.com'' else None)
        \<lparr>read_throws = False, permission = Denied, write_rejects = False\<rparr>
        ''https://docs.example.com/wiki'' (fresh_module (Some [])))"
proof -
  let ?h = "\<lambda>u. if u = ''https://docs.example.com/wiki'' then Some ''docs.example.com'' else None"
  let ?e = "\<lparr>read_throws = False, permission = Denied, write_rejects = False\<rparr>"
  have l1: "loaded ?e (fresh_module (Some [''example.com''])) = [''example.com'']"
    by code_simp
  have l2: "loaded ?e (fresh_module (Some [])) = []"
    by code_simp
  have s: "''docs.example.com'' = ''docs'' @ ''.'' @ ''example.com''"
    by simp
  have a: "fst (matchesCustomDomain ?h ?e ''https://docs.example.com/wiki''
             (fresh_module (Some [''example.com''])))"
    using matchesCustomDomain_host_suffix
      [of ?h ?e "''https://docs.example.com/wiki''" "fresh_module (Some [''example.com''])"] l1 s
    by (simp del: append.simps)
  have b: "\<not> fst (matchesCustomDomain ?h ?e ''not a url''
             (fresh_module (Some [''example.com''])))"
    using matchesCustomDomain_host_suffix
      [of ?h ?e "''not a url''" "fresh_module (Some [''example.com''])"]
    by simp
  have c: "\<not> fst (matchesCustomDomain ?h ?e ''https://docs.example.com/wiki''
             (fresh_module (Some [])))"
    using matchesCustomDomain_host_suffix
      [of ?h ?e "''https://docs.example.com/wiki''" "fresh_module (Some [])"] l2
    by simp
  from a b c show ?thesis by simp
qed

subsection \<open>The shared default object\<close>

lemma loadDomainConfig_aliases_default:
  "storage w = None \<or> read_throws e \<Longrightarrow> fst (loadDomainConfig e w) = TheDefault"
  by (auto simp add: loadDomainConfig_def log_event_def Let_def)

lemma loadDomainConfig_present:
  "\<not> read_throws e \<Longrightarrow> storage w = Some stored \<Longrightarrow>
   fst (loadDomainConfig e w) = Fresh (filter validateDomain stored)"
  by (simp add: loadDomainConfig_def log_event_def Let_def)

lemma loadDomainConfig_fresh_module_absent:
  "loaded e (fresh_module None) = []"
  by (simp add: loaded_eq fresh_module_def)

text \<open>
  C10: \<^verbatim>\<open>loadDomainConfig\<close> hands out the module-level default object itself when the key
  is absent or the read fails, and \<^verbatim>\<open>addCustomDomain\<close> pushes into the object it loaded
  before saving. So after an add that ran on the default object, the default holds the new
  domain; if the write was rejected the key is as absent as before; and every later load
  that finds the key absent (or fails to read, or runs after the key was cleared) returns
  the default object with that domain in it instead of an empty list.
\<close>

theorem default_config_shared:
  assumes "storage w = None \<or> read_throws e"
    and "validateDomain (normalizeDomain d)"
    and "normalizeDomain d \<notin> set DEFAULT_DOMAINS"
    and "normalizeDomain d \<notin> set (DEFAULT_DOMAIN_CONFIG w)"
    and "permission e = Granted"
  shows "fst (loadDomainConfig e w) = TheDefault
       \<and> DEFAULT_DOMAIN_CONFIG (snd (addCustomDomain e d w)) =
           DEFAULT_DOMAIN_CONFIG w @ [normalizeDomain d]
       \<and> (write_rejects e \<longrightarrow> storage (snd (addCustomDomain e d w)) = storage w)
       \<and> (\<forall>e'. storage (snd (addCustomDomain e d w)) = None \<or> read_throws e'
              \<longrightarrow> fst (loadDomainConfig e' (snd (addCustomDomain e d w))) = TheDefault
                \<and> loaded e' (snd (addCustomDomain e d w)) =
                    DEFAULT_DOMAIN_CONFIG w @ [normalizeDomain d])
       \<and> (\<forall>e'. loaded e' ((snd (addCustomDomain e d w))\<lparr>storage := None\<rparr>) =
                DEFAULT_DOMAIN_CONFIG w @ [normalizeDomain d])"
proof -
  have a: "fst (loadDomainConfig e w) = TheDefault"
    using assms(1) by (rule loadDomainConfig_aliases_default)
  have l: "loaded e w = DEFAULT_DOMAIN_CONFIG w"
    using assms(1) by (auto simp add: loaded_eq)
  have b: "DEFAULT_DOMAIN_CONFIG (snd (addCustomDomain e d w)) =
           DEFAULT_DOMAIN_CONFIG w @ [normalizeDomain d]"
    using assms
    by (auto simp add: addCustomDomain_def loadDomainConfig_def saveDomainConfig_def
        log_event_def Let_def split: option.splits prod.splits)
  have c: "storage (snd (addCustomDomain e d w)) = storage w" if "write_rejects e"
    using addCustomDomain_lists [of e d w] that by auto
  have d: "fst (loadDomainConfig e' (snd (addCustomDomain e d w))) = TheDefault
         \<and> loaded e' (snd (addCustomDomain e d w)) = DEFAULT_DOMAIN_CONFIG w @ [normalizeDomain d]"
    if "storage (snd (addCustomDomain e d w)) = None \<or> read_throws e'" for e'
    using that b by (auto simp add: loadDomainConfig_aliases_default loaded_eq)
  have e: "loaded e' ((snd (addCustomDomain e d w))\<lparr>storage := None\<rparr>) =
                DEFAULT_DOMAIN_CONFIG w @ [normalizeDomain d]" for e'
    using b by (simp add: loaded_eq)
  from a b c d e show ?thesis by blast
qed

theorem default_config_shared_witness:
  "(storage (fresh_module None) = None
      \<or> read_throws \<lparr>read_throws = False, permission = Granted, write_rejects = True\<rparr>)
   \<and> validateDomain (normalizeDomain ''example.com'')
   \<and> normalizeDomain ''example.com'' \<notin> set DEFAULT_DOMAINS
   \<and> normalizeDomain ''example.com'' \<notin> set (DEFAULT_DOMAIN_CONFIG (fresh_module None))
   \<and> permission \<lparr>read_throws = False, permission = Granted, write_rejects = True\<rparr> = Granted
   \<and> storage (snd (addCustomDomain
         \<lparr>read_throws = False, permission = Granted, write_rejects = True\<rparr>
         ''example.com'' (fresh_module None))) = None
   \<and> loaded \<lparr>read_throws = False, permission = Denied, write_rejects = False\<rparr>
        (snd (addCustomDomain
         \<lparr>read_throws = False, permission = Granted, write_rejects = True\<rparr>
         ''example.com'' (fresh_module None))) = [''example.com'']"
proof -
  let ?e = "\<lparr>read_throws = False, permission = Granted, write_rejects = True\<rparr>"
  have a: "storage (fresh_module None) = None \<or> read_throws ?e"
    by (simp add: fresh_module_def)
  have b: "validateDomain (normalizeDomain ''example.com'')"
    by code_simp
  have c: "normalizeDomain ''example.com'' \<notin> set DEFAULT_DOMAINS"
    by code_simp
  have d: "normalizeDomain ''example.com'' \<notin> set (DEFAULT_DOMAIN_CONFIG (fresh_module None))"
    by (simp add: fresh_module_def)
  have e: "permission ?e = Granted"
    by simp
  have n: "normalizeDomain ''example.com'' = ''example.com''"
    by code_simp
  have f: "DEFAULT_DOMAIN_CONFIG (fresh_module None) = []" "storage (fresh_module None) = None"
    by (simp_all add: fresh_module_def)
  from default_config_shared [OF a b c d e] a b c d e n f show ?thesis
    by simp
qed

text \<open>
  C4: \<^verbatim>\<open>loadDomainConfig\<close> is meant to return an empty \<^verbatim>\<open>customDomains\<close> when the key is
  absent. On a freshly loaded module with no stored key, an add of \<^verbatim>\<open>wiki.example.org\<close>
  whose permission is granted and whose write is rejected leaves the key absent, and the
  next load with a working storage returns the default object holding
  \<^verbatim>\<open>wiki.example.org\<close>. The other parts of the contract hold: \<open>loadDomainConfig_present\<close>
  (invalid entries are dropped from the view), \<open>loadDomainConfig_storage\<close> (storage is not
  rewritten) and, by its type, no fault leaves the function.
\<close>

theorem load_absent_key_not_empty:
  "storage (snd (addCustomDomain
       \<lparr>read_throws = False, permission = Granted, write_rejects = True\<rparr>
       ''wiki.example.org'' (fresh_module None))) = None
   \<and> fst (loadDomainConfig \<lparr>read_throws = False, permission = Denied, write_rejects = False\<rparr>
        (snd (addCustomDomain
          \<lparr>read_throws = False, permission = Granted, write_rejects = True\<rparr>
          ''wiki.example.org'' (fresh_module None)))) = TheDefault
   \<and> loaded \<lparr>read_throws = False, permission = Denied, write_rejects = False\<rparr>
        (snd (addCustomDomain
          \<lparr>read_throws = False, permission = Granted, write_rejects = True\<rparr>
          ''wiki.example.org'' (fresh_module None))) = [''wiki.example.org'']"
  by code_simp

subsection \<open>Results and faults of the mutating operations\<close>

lemma addCustomDomain_outcome:
  "(case fst (addCustomDomain e d w) of
      Inl f \<Rightarrow> (f = PermissionsRequestRejected \<and> permission e = RequestRejected)
              \<or> (f = StorageSetRejected \<and> permission e = Granted \<and> write_rejects e)
    | Inr r \<Rightarrow> (success r \<and> message r = ''domain_added'')
              \<or> (\<not> success r \<and> message r \<in> {''invalid_domain_format'',
                    ''domain_already_builtin'', ''domain_already_exists'', ''permission_denied''}))"
  by (auto simp add: addCustomDomain_def saveDomainConfig_def Let_def
      split: prod.splits permission_answer.splits)

lemma removeCustomDomain_outcome:
  "(case fst (removeCustomDomain e d w) of
      Inl f \<Rightarrow> f = StorageSetRejected \<and> write_rejects e
    | Inr r \<Rightarrow> (success r \<and> message r = ''domain_removed'')
              \<or> (\<not> success r \<and> message r = ''domain_not_found''))"
  by (auto simp add: removeCustomDomain_def saveDomainConfig_def Let_def
      split: prod.splits option.splits)

lemma addCustomDomain_request_rejected:
  "validateDomain (normalizeDomain d) \<Longrightarrow> normalizeDomain d \<notin> set DEFAULT_DOMAINS \<Longrightarrow>
   normalizeDomain d \<notin> set (loaded e w) \<Longrightarrow> permission e = RequestRejected \<Longrightarrow>
   fst (addCustomDomain e d w) = Inl PermissionsRequestRejected"
  by (simp add: addCustomDomain_def loaded_def Let_def split: prod.splits)

lemma addCustomDomain_write_rejected:
  "validateDomain (normalizeDomain d) \<Longrightarrow> normalizeDomain d \<notin> set DEFAULT_DOMAINS \<Longrightarrow>
   normalizeDomain d \<notin> set (loaded e w) \<Longrightarrow> permission e = Granted \<Longrightarrow> write_rejects e \<Longrightarrow>
   fst (addCustomDomain e d w) = Inl StorageSetRejected"
  by (simp add: addCustomDomain_def loaded_def saveDomainConfig_def Let_def split: prod.splits)

lemma removeCustomDomain_write_rejected:
  "normalizeDomain d \<in> set (loaded e w) \<Longrightarrow> write_rejects e \<Longrightarrow>
   fst (removeCustomDomain e d w) = Inl StorageSetRejected"
  by (auto simp add: removeCustomDomain_def loaded_def saveDomainConfig_def Let_def
      indexOf_None_iff split: prod.splits option.splits)

lemma handleAddDomain_settles: "fst (handleAddDomain e e2 pw) = Inr ()"
  by (simp add: handleAddDomain_def loadDomains_def Let_def split: prod.splits sum.splits)

lemma handleRemoveDomain_settles: "fst (handleRemoveDomain e e2 d pw) = Inr ()"
  by (simp add: handleRemoveDomain_def loadDomains_def Let_def split: prod.splits sum.splits)

lemma handleAddDomain_unknown:
  "trim (newDomain p) \<noteq> [] \<Longrightarrow> validateDomain (newDomain p) \<Longrightarrow>
   fst (addCustomDomain e (newDomain p) w) = Inl f \<Longrightarrow>
   error_key (fst (snd (handleAddDomain e e2 (p, w)))) = Some ''domains.error.unknown''"
  by (cases "addCustomDomain e (newDomain p) w") (simp add: handleAddDomain_def Let_def)

lemma handleRemoveDomain_unknown:
  "fst (removeCustomDomain e d w) = Inl f \<Longrightarrow>
   error_key (fst (snd (handleRemoveDomain e e2 d (p, w)))) = Some ''domains.error.unknown''"
  by (cases "removeCustomDomain e d w") (simp add: handleRemoveDomain_def Let_def)

text \<open>
  C1, as stated, fails: with the permission granted and the storage write rejected,
  \<^verbatim>\<open>addCustomDomain\<close> does not return a result; the rejection of \<^verbatim>\<open>chrome.storage.sync.set\<close>
  reaches the caller.
\<close>

theorem write_rejection_escapes_add:
  "fst (addCustomDomain \<lparr>read_throws = False, permission = Granted, write_rejects = True\<rparr>
     ''intranet.example.com'' (fresh_module (Some []))) = Inl StorageSetRejected"
  by code_simp

text \<open>
  C1, amended: \<^verbatim>\<open>addCustomDomain\<close> and \<^verbatim>\<open>removeCustomDomain\<close> return a structured result
  with one of their own messages (never \<^verbatim>\<open>unknown\<close>) unless the permission request or the
  storage write is rejected; a rejected request or write is not caught by them and reaches
  the caller, while a failed read is absorbed by \<^verbatim>\<open>loadDomainConfig\<close>. The handlers of the
  options page catch what escapes: they always settle, and they show
  \<^verbatim>\<open>domains.error.unknown\<close> whenever the operation they called threw.
\<close>

theorem faults_reach_the_caller:
  "(case fst (addCustomDomain e d w) of
      Inl f \<Rightarrow> (f = PermissionsRequestRejected \<and> permission e = RequestRejected)
              \<or> (f = StorageSetRejected \<and> permission e = Granted \<and> write_rejects e)
    | Inr r \<Rightarrow> (success r \<and> message r = ''domain_added'')
              \<or> (\<not> success r \<and> message r \<in> {''invalid_domain_format'',
                    ''domain_already_builtin'', ''domain_already_exists'', ''permission_denied''}))
   \<and> (case fst (removeCustomDomain e d w) of
      Inl f \<Rightarrow> f = StorageSetRejected \<and> write_rejects e
    | Inr r \<Rightarrow> (success r \<and> message r = ''domain_removed'')
              \<or> (\<not> success r \<and> message r = ''domain_not_found''))
   \<and> (validateDomain (normalizeDomain d) \<and> normalizeDomain d \<notin> set DEFAULT_DOMAINS
        \<and> normalizeDomain d \<notin> set (loaded e w)
        \<longrightarrow> (permission e = RequestRejected
               \<longrightarrow> fst (addCustomDomain e d w) = Inl PermissionsRequestRejected)
          \<and> (permission e = Granted \<and> write_rejects e
               \<longrightarrow> fst (addCustomDomain e d w) = Inl StorageSetRejected))
   \<and> (normalizeDomain d \<in> set (loaded e w) \<and> write_rejects e
        \<longrightarrow> fst (removeCustomDomain e d w) = Inl StorageSetRejected)
   \<and> fst (handleAddDomain e e2 (p, w)) = Inr ()
   \<and> fst (handleRemoveDomain e e2 d (p, w)) = Inr ()
   \<and> (\<forall>f. trim (newDomain p) \<noteq> [] \<and> validateDomain (newDomain p)
          \<and> fst (addCustomDomain e (newDomain p) w) = Inl f
        \<longrightarrow> error_key (fst (snd (handleAddDomain e e2 (p, w)))) = Some ''domains.error.unknown'')
   \<and> (\<forall>f. fst (removeCustomDomain e d w) = Inl f
        \<longrightarrow> error_key (fst (snd (handleRemoveDomain e e2 d (p, w)))) =
              Some ''domains.error.unknown'')"
  using addCustomDomain_outcome [of e d w] removeCustomDomain_outcome [of e d w]
    addCustomDomain_request_rejected [of d e w] addCustomDomain_write_rejected [of d e w]
    removeCustomDomain_write_rejected [of d e w]
    handleAddDomain_settles [of e e2 "(p, w)"] handleRemoveDomain_settles [of e e2 d "(p, w)"]
    handleAddDomain_unknown [of p e w _ e2] handleRemoveDomain_unknown [of e d w _ e2 p]
  by blast

theorem faults_reach_the_caller_witness:
  "fst (addCustomDomain \<lparr>read_throws = False, permission = RequestRejected, write_rejects = True\<rparr>
         ''team.example.com'' (fresh_module (Some [''example.com'']))) =
     Inl PermissionsRequestRejected
   \<and> error_key (fst (snd (handleAddDomain
         \<lparr>read_throws = False, permission = RequestRejected, write_rejects = True\<rparr>
         \<lparr>read_throws = False, permission = Denied, write_rejects = False\<rparr>
         (\<lparr>customDomains_ref = Fresh [''example.com''], newDomain = ''team.example.com'',
            loading = False, error_key = None, success_key = None\<rparr>,
          fresh_module (Some [''example.com'']))))) = Some ''domains.error.unknown''
   \<and> fst (removeCustomDomain
         \<lparr>read_throws = False, permission = Granted, write_rejects = True\<rparr>
         ''example.com'' (fresh_module (Some [''example.com'']))) = Inl StorageSetRejected
   \<and> error_key (fst (snd (handleRemoveDomain
         \<lparr>read_throws = False, permission = Granted, write_rejects = True\<rparr>
         \<lparr>read_throws = False, permission = Denied, write_rejects = False\<rparr>
         ''example.com''
         (\<lparr>customDomains_ref = Fresh [''example.com''], newDomain = ''team.example.com'',
            loading = False, error_key = None, success_key = None\<rparr>,
          fresh_module (Some [''example.com'']))))) = Some ''domains.error.unknown''
   \<and> fst (addCustomDomain \<lparr>read_throws = False, permission = Granted, write_rejects = True\<rparr>
         ''team.example.com'' (fresh_module (Some [''example.com'']))) = Inl StorageSetRejected"
proof -
  let ?e1 = "\<lparr>read_throws = False, permission = RequestRejected, write_rejects = True\<rparr>"
  let ?e2 = "\<lparr>read_throws = False, permission = Denied, write_rejects = False\<rparr>"
  let ?e3 = "\<lparr>read_throws = False, permission = Granted, write_rejects = True\<rparr>"
  let ?w = "fresh_module (Some [''example.com''])"
  let ?p = "\<lparr>customDomains_ref = Fresh [''example.com''], newDomain = ''team.example.com'',
            loading = False, error_key = None, success_key = None\<rparr>"
  have v: "validateDomain (normalizeDomain ''team.example.com'')"
    by code_simp
  have b: "normalizeDomain ''team.example.com'' \<notin> set DEFAULT_DOMAINS"
    by code_simp
  have l1: "normalizeDomain ''team.example.com'' \<notin> set (loaded ?e1 ?w)"
    by code_simp
  have l3: "normalizeDomain ''team.example.com'' \<notin> set (loaded ?e3 ?w)"
    by code_simp
  have m: "normalizeDomain ''example.com'' \<in> set (loaded ?e3 ?w)"
    by code_simp
  have t: "trim (newDomain ?p) \<noteq> []"
    by code_simp
  have u: "validateDomain (newDomain ?p)"
    by code_simp
  have n: "newDomain ?p = ''team.example.com''"
    by simp
  have p1: "permission ?e1 = RequestRejected" and p3: "permission ?e3 = Granted \<and> write_rejects ?e3"
    by simp_all
  have a1: "fst (addCustomDomain ?e1 ''team.example.com'' ?w) = Inl PermissionsRequestRejected"
    using faults_reach_the_caller [of ?e1 "''team.example.com''" ?w ?e2 ?p] v b l1 p1
    by blast
  have a2: "error_key (fst (snd (handleAddDomain ?e1 ?e2 (?p, ?w)))) = Some ''domains.error.unknown''"
    using faults_reach_the_caller [of ?e1 "''team.example.com''" ?w ?e2 ?p] a1 t u n
    by (metis (no_types))
  have a3: "fst (removeCustomDomain ?e3 ''example.com'' ?w) = Inl StorageSetRejected"
    using faults_reach_the_caller [of ?e3 "''example.com''" ?w ?e2 ?p] m p3
    by blast
  have a4: "error_key (fst (snd (handleRemoveDomain ?e3 ?e2 ''example.com'' (?p, ?w)))) =
      Some ''domains.error.unknown''"
    using faults_reach_the_caller [of ?e3 "''example.com''" ?w ?e2 ?p] a3
    by blast
  have a5: "fst (addCustomDomain ?e3 ''team.example.com'' ?w) = Inl StorageSetRejected"
    using faults_reach_the_caller [of ?e3 "''team.example.com''" ?w ?e2 ?p] v b l3 p3
    by blast
  from a1 a2 a3 a4 a5 show ?thesis by blast
qed

end
